theory Spec2Isabelle
  imports
    Complex_Main
    "HOL-Library.Sublist"
    "HOL-Library.Multiset"
    "HOL-Library.Char_ord"
    "HOL-Library.List_Lexorder"
begin

section \<open>Identifiers of list records\<close>

text \<open>
  The identifiers held by the stateful list components are JavaScript numbers. Starting
  from the literal states of the source, the only values an identifier can take are
  integers and the value \<open>-Infinity\<close>, which \<open>Math.max\<close> returns when it is called
  without arguments. \<open>Num n\<close> stands for the number with the integer value \<open>n\<close>;
  the arithmetic below is the arithmetic of the source for safe integers
  (\<open>Number.isSafeInteger\<close>, magnitude at most \<open>2^53 - 1\<close>), where doubles are exact.
\<close>

datatype jsnum = MinusInfinity | Num int

text \<open>The relational operator \<open>a < b\<close> on these numbers.\<close>

fun num_less :: "jsnum \<Rightarrow> jsnum \<Rightarrow> bool" where
  "num_less MinusInfinity (Num b) = True"
| "num_less (Num a) (Num b) = (a < b)"
| "num_less a MinusInfinity = False"

text \<open>The expression \<open>x + 1\<close>: \<open>-Infinity + 1\<close> is \<open>-Infinity\<close>.\<close>

fun plus_one :: "jsnum \<Rightarrow> jsnum" where
  "plus_one MinusInfinity = MinusInfinity"
| "plus_one (Num n) = Num (n + 1)"

text \<open>
  \<open>Math.max(...values)\<close>: the running maximum starts at \<open>-Infinity\<close> and is replaced
  by every argument that is greater; with no argument the result is \<open>-Infinity\<close>.
\<close>

definition Math_max :: "jsnum list \<Rightarrow> jsnum" where
  "Math_max values =
     foldl (\<lambda>highest number. if num_less highest number then number else highest)
       MinusInfinity values"

fun isSafeInteger :: "jsnum \<Rightarrow> bool" where
  "isSafeInteger MinusInfinity = False"
| "isSafeInteger (Num n) = (- 9007199254740991 \<le> n \<and> n \<le> 9007199254740991)"

text \<open>
  Number-to-string conversion, as a template literal performs it: \<open>-Infinity\<close>, and the
  decimal digits of an integer (the form the source prints below \<open>10^21\<close>, which covers
  the safe integers).
\<close>

fun digits :: "nat \<Rightarrow> string" where
  "digits n =
     (if n < 10 then [''0123456789'' ! n]
      else digits (n div 10) @ [''0123456789'' ! (n mod 10)])"

fun toString :: "jsnum \<Rightarrow> string" where
  "toString MinusInfinity = ''-Infinity''"
| "toString (Num n) = (if n < 0 then CHR ''-'' # digits (nat (- n)) else digits (nat n))"


section \<open>DynamicList: the stateful list container\<close>

text \<open>
  A record of the list is an object \<open>{ id, text }\<close>. The fields are named \<open>id'\<close> and
  \<open>text'\<close> here. The record type is extensible, so that the operations which copy a
  record with the spread syntax keep every further field of it.
\<close>

record item =
  id' :: jsnum
  text' :: string

text \<open>The state the component is created with (the argument of \<open>useState\<close>).\<close>

definition initial_items :: "item list" where
  "initial_items =
     [\<lparr>id' = Num 1, text' = ''Item 1''\<rparr>, \<lparr>id' = Num 2, text' = ''Item 2''\<rparr>]"

text \<open>
  Each handler makes one call of \<open>setItems\<close>; it is modelled by the function from the
  current state \<open>items\<close> to the argument of that call, which is the next state.
\<close>

definition addItem :: "item list \<Rightarrow> item list" where
  "addItem items =
     (let newId = plus_one (Math_max (map id' items))
      in items @ [\<lparr>id' = newId, text' = ''Item '' @ toString newId\<rparr>])"

definition removeItem :: "jsnum \<Rightarrow> 'a item_scheme list \<Rightarrow> 'a item_scheme list" where
  "removeItem i items = filter (\<lambda>item. id' item \<noteq> i) items"

definition updateItem ::
  "jsnum \<Rightarrow> string \<Rightarrow> 'a item_scheme list \<Rightarrow> 'a item_scheme list" where
  "updateItem i newText items =
     map (\<lambda>item. if id' item = i then item\<lparr>text' := newText\<rparr> else item) items"


section \<open>SortableList: filtering and sorting\<close>

text \<open>The records of this component carry a further field \<open>category\<close>.\<close>

record citem = item +
  category :: string

definition sortable_initial :: "citem list" where
  "sortable_initial =
     [\<lparr>id' = Num 1, text' = ''Apple'', category = ''fruit''\<rparr>,
      \<lparr>id' = Num 2, text' = ''Banana'', category = ''fruit''\<rparr>,
      \<lparr>id' = Num 3, text' = ''Carrot'', category = ''vegetable''\<rparr>]"

text \<open>
  \<open>filterByCategory\<close> is called while rendering and makes no call of \<open>setItems\<close>.
  Its model returns the array it returns together with the state of the component after
  the call.
\<close>

definition filterByCategory :: "string \<Rightarrow> citem list \<Rightarrow> citem list \<times> citem list" where
  "filterByCategory c items = (filter (\<lambda>item. category item = c) items, items)"

text \<open>
  \<open>Array.prototype.sort(comparefn)\<close>. For a consistent comparison function ECMAScript
  fixes the result: the elements in non-decreasing order of \<open>comparefn\<close>, those that
  compare equal in the order they had (the sort is stable). Inserting the elements from
  the right, each one before the first element it does not exceed, computes that list.
\<close>

fun insert_by :: "('a \<Rightarrow> 'a \<Rightarrow> int) \<Rightarrow> 'a \<Rightarrow> 'a list \<Rightarrow> 'a list" where
  "insert_by comparefn a [] = [a]"
| "insert_by comparefn a (b # bs) =
     (if comparefn a b \<le> 0 then a # b # bs else b # insert_by comparefn a bs)"

definition array_sort :: "('a \<Rightarrow> 'a \<Rightarrow> int) \<Rightarrow> 'a list \<Rightarrow> 'a list" where
  "array_sort comparefn xs = foldr (insert_by comparefn) xs []"

text \<open>
  \<open>String.prototype.localeCompare\<close> belongs to the host runtime and depends on its
  locale, so \<open>sortItems\<close> takes it as a parameter: a function to a negative number, zero
  or a positive number. The handler sorts a copy of the state and passes it to
  \<open>setItems\<close>; the model returns that next state.
\<close>

definition sortItems ::
  "(string \<Rightarrow> string \<Rightarrow> int) \<Rightarrow> 'a item_scheme list \<Rightarrow> 'a item_scheme list" where
  "sortItems localeCompare items =
     (let sorted = array_sort (\<lambda>a b. localeCompare (text' a) (text' b)) items
      in sorted)"

text \<open>
  The requirements of ECMAScript on a consistent comparison function: reflexivity and
  symmetry of "compares equal", and transitivity of "equal", "less" and "greater".
\<close>

definition consistent_comparator :: "('a \<Rightarrow> 'a \<Rightarrow> int) \<Rightarrow> bool" where
  "consistent_comparator comparefn \<longleftrightarrow>
     (\<forall>a. comparefn a a = 0)
   \<and> (\<forall>a b. comparefn a b = 0 \<longrightarrow> comparefn b a = 0)
   \<and> (\<forall>a b c. comparefn a b = 0 \<and> comparefn b c = 0 \<longrightarrow> comparefn a c = 0)
   \<and> (\<forall>a b c. comparefn a b < 0 \<and> comparefn b c < 0 \<longrightarrow> comparefn a c < 0)
   \<and> (\<forall>a b c. comparefn a b > 0 \<and> comparefn b c > 0 \<longrightarrow> comparefn a c > 0)"

text \<open>
  One comparison function of this kind, used to run the model: the order of the
  character codes.
\<close>

definition code_order_compare :: "string \<Rightarrow> string \<Rightarrow> int" where
  "code_order_compare a b = (if a < b then - 1 else if a = b then 0 else 1)"


section \<open>The conditional-rendering catalogue\<close>




















section \<open>The classes of the SOLID-principles file\<close>

datatype cls =
    UserBad | User | UserRepository | ReportGenerator | EmailService
  | PaymentProcessorBad | Payment | CreditCardPayment | PayPalPayment | BitcoinPayment
  | PaymentProcessor
  | BirdBad | PenguinBad | Bird | FlyingBird | SwimmingBird | Penguin | Sparrow
  | MachineBad | Printer | Scanner | FaxMachine | AllInOnePrinter | BasicPrinter
  | MySQLDatabaseBad | UserServiceBad | Database | MySQLDatabase | MongoDatabase
  | UserService
  | TaskRepository | NotificationService | MongoTaskRepository
  | EmailNotificationService | SlackNotificationService | Task | TaskService

definition all_classes :: "cls list" where
  "all_classes =
     [UserBad, User, UserRepository, ReportGenerator, EmailService,
      PaymentProcessorBad, Payment, CreditCardPayment, PayPalPayment, BitcoinPayment,
      PaymentProcessor,
      BirdBad, PenguinBad, Bird, FlyingBird, SwimmingBird, Penguin, Sparrow,
      MachineBad, Printer, Scanner, FaxMachine, AllInOnePrinter, BasicPrinter,
      MySQLDatabaseBad, UserServiceBad, Database, MySQLDatabase, MongoDatabase,
      UserService,
      TaskRepository, NotificationService, MongoTaskRepository,
      EmailNotificationService, SlackNotificationService, Task, TaskService]"

text \<open>The \<open>extends\<close> clause of each class.\<close>

fun extends :: "cls \<Rightarrow> cls option" where
  "extends CreditCardPayment = Some Payment"
| "extends PayPalPayment = Some Payment"
| "extends BitcoinPayment = Some Payment"
| "extends PenguinBad = Some BirdBad"
| "extends FlyingBird = Some Bird"
| "extends SwimmingBird = Some Bird"
| "extends Penguin = Some SwimmingBird"
| "extends Sparrow = Some FlyingBird"
| "extends BasicPrinter = Some Printer"
| "extends MySQLDatabase = Some Database"
| "extends MongoDatabase = Some Database"
| "extends MongoTaskRepository = Some TaskRepository"
| "extends EmailNotificationService = Some NotificationService"
| "extends SlackNotificationService = Some NotificationService"
| "extends c = None"

text \<open>
  The body of a method is either the single statement \<open>throw new Error(message)\<close> or a
  body without a \<open>throw\<close> statement (console output, field access, calls of other
  methods).
\<close>

datatype body = Throws string | NoThrow

text \<open>The methods each class declares itself, in the order of the source.\<close>

fun methods :: "cls \<Rightarrow> (string \<times> body) list" where
  "methods UserBad =
     [(''saveToDatabase'', NoThrow), (''generateReport'', NoThrow), (''sendEmail'', NoThrow)]"
| "methods User = [(''getName'', NoThrow)]"
| "methods UserRepository = [(''saveUser'', NoThrow)]"
| "methods ReportGenerator = [(''generateUserReport'', NoThrow)]"
| "methods EmailService = [(''sendEmailToUser'', NoThrow)]"
| "methods PaymentProcessorBad = [(''processPayment'', NoThrow)]"
| "methods Payment = [(''process'', Throws ''process() method must be implemented'')]"
| "methods CreditCardPayment = [(''process'', NoThrow)]"
| "methods PayPalPayment = [(''process'', NoThrow)]"
| "methods BitcoinPayment = [(''process'', NoThrow)]"
| "methods PaymentProcessor = [(''processPayment'', NoThrow)]"
| "methods BirdBad = [(''fly'', NoThrow)]"
| "methods PenguinBad = [(''fly'', Throws ''Penguins can't fly!'')]"
| "methods Bird = [(''move'', NoThrow)]"
| "methods FlyingBird = [(''fly'', NoThrow)]"
| "methods SwimmingBird = [(''swim'', NoThrow)]"
| "methods Penguin = []"
| "methods Sparrow = []"
| "methods MachineBad =
     [(''print'', NoThrow), (''scan'', NoThrow), (''fax'', NoThrow), (''photocopy'', NoThrow)]"
| "methods Printer = [(''print'', NoThrow)]"
| "methods Scanner = [(''scan'', NoThrow)]"
| "methods FaxMachine = [(''fax'', NoThrow)]"
| "methods AllInOnePrinter = [(''print'', NoThrow), (''scan'', NoThrow), (''fax'', NoThrow)]"
| "methods BasicPrinter = []"
| "methods MySQLDatabaseBad = [(''save'', NoThrow)]"
| "methods UserServiceBad = [(''saveUser'', NoThrow)]"
| "methods Database = [(''save'', Throws ''save() method must be implemented'')]"
| "methods MySQLDatabase = [(''save'', NoThrow)]"
| "methods MongoDatabase = [(''save'', NoThrow)]"
| "methods UserService = [(''saveUser'', NoThrow)]"
| "methods TaskRepository =
     [(''save'', Throws ''Not implemented''), (''delete'', Throws ''Not implemented''),
      (''find'', Throws ''Not implemented'')]"
| "methods NotificationService = [(''notify'', Throws ''Not implemented'')]"
| "methods MongoTaskRepository =
     [(''save'', NoThrow), (''delete'', NoThrow), (''find'', NoThrow)]"
| "methods EmailNotificationService = [(''notify'', NoThrow)]"
| "methods SlackNotificationService = [(''notify'', NoThrow)]"
| "methods Task = [(''complete'', NoThrow)]"
| "methods TaskService = [(''createTask'', NoThrow), (''completeTask'', NoThrow)]"

definition own_method :: "cls \<Rightarrow> string \<Rightarrow> body option" where
  "own_method c m = map_of (methods c) m"

text \<open>
  The prototype chain of an instance of \<open>c\<close> within the file: the class, then its
  ancestors up to the root class of the hierarchy (the properties every object inherits
  from \<open>Object.prototype\<close> are not part of the class table). The fuel is the number of
  classes, which no chain exceeds.
\<close>

fun chain :: "nat \<Rightarrow> cls \<Rightarrow> cls list" where
  "chain 0 c = [c]"
| "chain (Suc fuel) c = (case extends c of None \<Rightarrow> [c] | Some p \<Rightarrow> c # chain fuel p)"

definition prototype_chain :: "cls \<Rightarrow> cls list" where
  "prototype_chain c = chain (length all_classes) c"

text \<open>Method resolution: the first class on the chain that declares the name.\<close>

fun resolve :: "cls list \<Rightarrow> string \<Rightarrow> body option" where
  "resolve [] m = None"
| "resolve (c # cs) m = (case own_method c m of Some b \<Rightarrow> Some b | None \<Rightarrow> resolve cs m)"

definition lookup_method :: "cls \<Rightarrow> string \<Rightarrow> body option" where
  "lookup_method c m = resolve (prototype_chain c) m"

text \<open>
  What the call \<open>new c().m(...)\<close> does at the body it resolves to: \<open>Raises\<close> when that
  body throws its \<open>Error\<close>, \<open>Runs\<close> when the body is entered and has no \<open>throw\<close>
  statement (what the methods it calls do is not part of this outcome), \<open>Missing\<close> when
  no class of the file on the chain declares the name.
\<close>

datatype outcome = Raises string | Runs | Missing

definition invoke :: "cls \<Rightarrow> string \<Rightarrow> outcome" where
  "invoke c m =
     (case lookup_method c m of
        None \<Rightarrow> Missing
      | Some (Throws message) \<Rightarrow> Raises message
      | Some NoThrow \<Rightarrow> Runs)"

text \<open>
  An abstract base class: a class without a parent all of whose methods only throw.
\<close>

definition abstract_base :: "cls \<Rightarrow> bool" where
  "abstract_base c \<longleftrightarrow>
     extends c = None \<and> methods c \<noteq> [] \<and> list_all (\<lambda>(m, b). b \<noteq> NoThrow) (methods c)"


section \<open>Properties of the identifier arithmetic\<close>

declare digits.simps [simp del]

lemma foldl_max_not_less_start:
  "\<not> num_less
       (foldl (\<lambda>highest number. if num_less highest number then number else highest) a xs) a"
proof (induction xs arbitrary: a)
  case Nil
  show ?case by (cases a) simp_all
next
  case (Cons x xs)
  show ?case
  proof (cases "num_less a x")
    case True
    have "\<not> num_less
        (foldl (\<lambda>highest number. if num_less highest number then number else highest) x xs) x"
      by (rule Cons.IH)
    with True show ?thesis
      by (cases a; cases x;
          cases "foldl (\<lambda>highest number. if num_less highest number then number else highest) x xs")
        auto
  next
    case False
    then show ?thesis using Cons.IH [of a] by simp
  qed
qed

lemma foldl_max_not_less_member:
  "x \<in> set xs \<Longrightarrow>
   \<not> num_less
       (foldl (\<lambda>highest number. if num_less highest number then number else highest) a xs) x"
proof (induction xs arbitrary: a)
  case Nil
  then show ?case by simp
next
  case (Cons y ys)
  show ?case
  proof (cases "x \<in> set ys")
    case True
    then show ?thesis using Cons.IH by simp
  next
    case False
    with Cons.prems have xy: "x = y" by simp
    show ?thesis
    proof (cases "num_less a y")
      case True
      then show ?thesis using xy foldl_max_not_less_start [of y ys] by simp
    next
      case False
      have "\<not> num_less
          (foldl (\<lambda>highest number. if num_less highest number then number else highest) a ys) a"
        by (rule foldl_max_not_less_start)
      with False xy show ?thesis
        by (cases a; cases y;
            cases "foldl (\<lambda>highest number. if num_less highest number then number else highest) a ys")
          auto
    qed
  qed
qed

lemma Math_max_upper: "x \<in> set xs \<Longrightarrow> \<not> num_less (Math_max xs) x"
  unfolding Math_max_def by (rule foldl_max_not_less_member)

lemma foldl_max_member:
  "foldl (\<lambda>highest number. if num_less highest number then number else highest) a xs
     \<in> insert a (set xs)"
  by (induction xs arbitrary: a) auto

lemma Math_max_finite:
  assumes "xs \<noteq> []" and "\<forall>x\<in>set xs. isSafeInteger x"
  shows "\<exists>m. Math_max xs = Num m \<and> Num m \<in> set xs"
proof -
  obtain y ys where xs: "xs = y # ys" using assms(1) by (cases xs) auto
  obtain k where y: "y = Num k" using assms(2) xs by (cases y) auto
  have "Math_max xs
      = foldl (\<lambda>highest number. if num_less highest number then number else highest) y ys"
    by (simp add: Math_max_def xs y)
  moreover have "\<dots> \<in> insert y (set ys)" by (rule foldl_max_member)
  ultimately have mem: "Math_max xs \<in> set xs" by (simp add: xs)
  with assms(2) have "isSafeInteger (Math_max xs)" by blast
  then obtain m where "Math_max xs = Num m" by (cases "Math_max xs") auto
  with mem show ?thesis by auto
qed

lemma num_less_plus_one:
  "\<not> num_less (Num m) x \<Longrightarrow> num_less x (Num (m + 1))"
  by (cases x) auto

text \<open>
  On a non-empty state whose identifiers are safe integers, \<open>addItem\<close> appends one record
  whose identifier is the maximum plus one, above every identifier of the state.
\<close>

lemma addItem_safe:
  assumes "S \<noteq> []" and "\<forall>r\<in>set S. isSafeInteger (id' r)"
  shows "\<exists>m. Math_max (map id' S) = Num m \<and> Num m \<in> id' ` set S
           \<and> addItem S = S @ [\<lparr>id' = Num (m + 1), text' = ''Item '' @ toString (Num (m + 1))\<rparr>]
           \<and> (\<forall>r\<in>set S. num_less (id' r) (Num (m + 1)))"
proof -
  have "map id' S \<noteq> []" using assms(1) by simp
  moreover have "\<forall>x\<in>set (map id' S). isSafeInteger x" using assms(2) by simp
  ultimately obtain m where m: "Math_max (map id' S) = Num m" "Num m \<in> set (map id' S)"
    using Math_max_finite by blast
  have "num_less (id' r) (Num (m + 1))" if "r \<in> set S" for r
  proof -
    from that have "id' r \<in> set (map id' S)" by simp
    then have "\<not> num_less (Math_max (map id' S)) (id' r)" by (rule Math_max_upper)
    then show ?thesis by (simp add: m num_less_plus_one)
  qed
  with m show ?thesis by (auto simp: addItem_def)
qed


section \<open>DynamicList: removal and update\<close>

lemma count_list_filter:
  "count_list (filter P xs) r = (if P r then count_list xs r else 0)"
  by (induction xs) auto

lemma filter_id_iff: "filter P xs = xs \<longleftrightarrow> (\<forall>x\<in>set xs. P x)"
  by (rule filter_id_conv)

text \<open>
  Claim C3. For every state \<open>S\<close>, identifier \<open>i\<close> and string \<open>newText\<close>, \<open>updateItem\<close>
  returns a state of the same length; at every position the identifier is the one of
  \<open>S\<close>; a record whose identifier is \<open>i\<close> is the old record with its text replaced by
  \<open>newText\<close>, a record with another identifier is unchanged; and when no record of \<open>S\<close>
  has the identifier \<open>i\<close> the result is \<open>S\<close>.
\<close>

theorem updateItem_spec:
  "length (updateItem i newText S) = length S
   \<and> (\<forall>k<length S.
         id' (updateItem i newText S ! k) = id' (S ! k)
       \<and> (id' (S ! k) = i \<longrightarrow>
            updateItem i newText S ! k = (S ! k)\<lparr>text' := newText\<rparr>
          \<and> text' (updateItem i newText S ! k) = newText)
       \<and> (id' (S ! k) \<noteq> i \<longrightarrow> updateItem i newText S ! k = S ! k))
   \<and> (i \<notin> id' ` set S \<longrightarrow> updateItem i newText S = S)"
proof -
  have len: "length (updateItem i newText S) = length S"
    by (simp add: updateItem_def)
  have pos: "\<forall>k<length S.
         id' (updateItem i newText S ! k) = id' (S ! k)
       \<and> (id' (S ! k) = i \<longrightarrow>
            updateItem i newText S ! k = (S ! k)\<lparr>text' := newText\<rparr>
          \<and> text' (updateItem i newText S ! k) = newText)
       \<and> (id' (S ! k) \<noteq> i \<longrightarrow> updateItem i newText S ! k = S ! k)"
    by (simp add: updateItem_def)
  have noop: "i \<notin> id' ` set S \<longrightarrow> updateItem i newText S = S"
  proof
    assume "i \<notin> id' ` set S"
    then have "\<forall>item\<in>set S. (if id' item = i then item\<lparr>text' := newText\<rparr> else item) = item"
      by auto
    then show "updateItem i newText S = S"
      unfolding updateItem_def by (simp add: map_idI)
  qed
  from len pos noop show ?thesis by blast
qed

theorem updateItem_spec_witness:
  "Num 7 \<notin> id' ` set [\<lparr>id' = Num 2, text' = ''Item 2''\<rparr>, \<lparr>id' = Num 3, text' = ''Item 3''\<rparr>]
   \<and> updateItem (Num 7) ''X'' [\<lparr>id' = Num 2, text' = ''Item 2''\<rparr>, \<lparr>id' = Num 3, text' = ''Item 3''\<rparr>]
       = [\<lparr>id' = Num 2, text' = ''Item 2''\<rparr>, \<lparr>id' = Num 3, text' = ''Item 3''\<rparr>]
   \<and> updateItem (Num 2) ''X'' [\<lparr>id' = Num 2, text' = ''Item 2''\<rparr>, \<lparr>id' = Num 3, text' = ''Item 3''\<rparr>] ! 0
       = \<lparr>id' = Num 2, text' = ''X''\<rparr>
   \<and> updateItem (Num 2) ''X'' [\<lparr>id' = Num 2, text' = ''Item 2''\<rparr>, \<lparr>id' = Num 3, text' = ''Item 3''\<rparr>] ! 1
       = \<lparr>id' = Num 3, text' = ''Item 3''\<rparr>"
  using updateItem_spec [of "Num 7" "''X''"
      "[\<lparr>id' = Num 2, text' = ''Item 2''\<rparr>, \<lparr>id' = Num 3, text' = ''Item 3''\<rparr>]"]
    updateItem_spec [of "Num 2" "''X''"
      "[\<lparr>id' = Num 2, text' = ''Item 2''\<rparr>, \<lparr>id' = Num 3, text' = ''Item 3''\<rparr>]"]
  by (simp add: nth_Cons')

text \<open>
  Claim C4. For every state \<open>S\<close> and identifier \<open>i\<close>, \<open>removeItem\<close> returns a
  subsequence of \<open>S\<close> (the order is kept) in which no record has the identifier \<open>i\<close> and
  every other record occurs as often as in \<open>S\<close>; when no record of \<open>S\<close> has the
  identifier \<open>i\<close> the result is \<open>S\<close>. The function is total: there is no error result.
\<close>

theorem removeItem_spec:
  "subseq (removeItem i S) S
   \<and> (\<forall>r. count_list (removeItem i S) r = (if id' r = i then 0 else count_list S r))
   \<and> (i \<notin> id' ` set S \<longrightarrow> removeItem i S = S)"
proof -
  have "subseq (removeItem i S) S"
    by (simp add: removeItem_def)
  moreover have "\<forall>r. count_list (removeItem i S) r = (if id' r = i then 0 else count_list S r)"
    by (simp add: removeItem_def count_list_filter)
  moreover have "i \<notin> id' ` set S \<longrightarrow> removeItem i S = S"
    by (auto simp: removeItem_def filter_id_iff)
  ultimately show ?thesis by blast
qed

theorem removeItem_spec_witness:
  "Num 3 \<notin> id' ` set initial_items
   \<and> removeItem (Num 3) initial_items = initial_items
   \<and> count_list (removeItem (Num 1) initial_items) \<lparr>id' = Num 1, text' = ''Item 1''\<rparr> = 0
   \<and> count_list (removeItem (Num 1) initial_items) \<lparr>id' = Num 2, text' = ''Item 2''\<rparr> = 1"
  using removeItem_spec [of "Num 3" initial_items] removeItem_spec [of "Num 1" initial_items]
  by (simp add: initial_items_def)

text \<open>
  Claim C5. For every state \<open>S\<close> and identifier \<open>i\<close>, removing \<open>i\<close> twice gives the same
  state as removing it once.
\<close>

theorem removeItem_idempotent:
  "removeItem i (removeItem i S) = removeItem i S"
  by (simp add: removeItem_def)


section \<open>DynamicList: adding a record\<close>

lemma removeItem_distinct:
  "distinct (map id' S) \<Longrightarrow> distinct (map id' (removeItem i S))"
  by (simp add: removeItem_def distinct_map_filter)

lemma updateItem_ids: "map id' (updateItem i newText S) = map id' S"
  by (induction S) (simp_all add: updateItem_def)

lemma updateItem_distinct:
  "distinct (map id' S) \<Longrightarrow> distinct (map id' (updateItem i newText S))"
  by (simp add: updateItem_ids)

text \<open>
  On the states whose identifiers are safe integers, \<open>addItem\<close> keeps the identifiers
  pairwise distinct; so does it on the empty state, whose successor has one record.
\<close>

lemma addItem_distinct_safe:
  assumes "distinct (map id' S)" and "\<forall>r\<in>set S. isSafeInteger (id' r)"
  shows "distinct (map id' (addItem S))"
proof (cases "S = []")
  case True
  then show ?thesis by (simp add: addItem_def Let_def)
next
  case False
  then obtain m where m:
    "addItem S = S @ [\<lparr>id' = Num (m + 1), text' = ''Item '' @ toString (Num (m + 1))\<rparr>]"
    "\<forall>r\<in>set S. num_less (id' r) (Num (m + 1))"
    using addItem_safe [OF False assms(2)] by blast
  have "Num (m + 1) \<notin> id' ` set S"
  proof
    assume "Num (m + 1) \<in> id' ` set S"
    then obtain r where "r \<in> set S" "id' r = Num (m + 1)" by auto
    with m(2) have "num_less (Num (m + 1)) (Num (m + 1))" by metis
    then show False by simp
  qed
  with assms(1) m(1) show ?thesis by simp
qed

text \<open>
  Claim C2. On the empty state, which two removals reach from the initial state,
  \<open>addItem\<close> raises nothing (the handler has no error path, its model is a total
  function) and returns a state of one record. The identifier of that record is 1 or,
  which is the case, it is no integer: it is \<open>-Infinity\<close>, and the text is
  \<open>Item -Infinity\<close>. The handler fails silently.
\<close>

theorem addItem_empty:
  "removeItem (Num 2) (removeItem (Num 1) initial_items) = []
   \<and> addItem [] = [\<lparr>id' = MinusInfinity, text' = ''Item -Infinity''\<rparr>]
   \<and> (id' (last (addItem [])) = Num 1 \<or> \<not> isSafeInteger (id' (last (addItem []))))"
  by (simp add: removeItem_def initial_items_def addItem_def Math_max_def Let_def)

text \<open>
  Claim C1. On the non-empty state that holds the one record made by adding to the empty
  state, \<open>addItem\<close> appends a record whose identifier is \<open>-Infinity\<close> again: it is the
  maximum plus one of the source's arithmetic, and it is not greater than the identifier
  already in the state but equal to it.
\<close>

theorem addItem_minus_infinity:
  "addItem [\<lparr>id' = MinusInfinity, text' = ''Item -Infinity''\<rparr>]
     = [\<lparr>id' = MinusInfinity, text' = ''Item -Infinity''\<rparr>,
        \<lparr>id' = MinusInfinity, text' = ''Item -Infinity''\<rparr>]
   \<and> \<not> num_less (id' (hd [\<lparr>id' = MinusInfinity, text' = ''Item -Infinity''\<rparr>]))
          (id' (last (addItem [\<lparr>id' = MinusInfinity, text' = ''Item -Infinity''\<rparr>])))
   \<and> id' (last (addItem [\<lparr>id' = MinusInfinity, text' = ''Item -Infinity''\<rparr>]))
       = id' (hd [\<lparr>id' = MinusInfinity, text' = ''Item -Infinity''\<rparr>])"
  by (simp add: addItem_def Math_max_def Let_def)

text \<open>
  Claim C10. The run Remove(1), Remove(2), Add from the initial state ends in a state
  whose identifiers are pairwise distinct; one more Add gives a state in which they are
  not: two records have the identifier \<open>-Infinity\<close>.
\<close>

theorem addItem_breaks_distinct:
  "distinct (map id' initial_items)
   \<and> distinct (map id' (addItem (removeItem (Num 2) (removeItem (Num 1) initial_items))))
   \<and> \<not> distinct
         (map id' (addItem (addItem (removeItem (Num 2) (removeItem (Num 1) initial_items)))))
   \<and> map id' (addItem (addItem (removeItem (Num 2) (removeItem (Num 1) initial_items))))
       = [MinusInfinity, MinusInfinity]"
  by (simp add: removeItem_def initial_items_def addItem_def Math_max_def Let_def)

text \<open>The example of the specification, run on the model.\<close>

lemma specification_example:
  "addItem initial_items
     = [\<lparr>id' = Num 1, text' = ''Item 1''\<rparr>, \<lparr>id' = Num 2, text' = ''Item 2''\<rparr>,
        \<lparr>id' = Num 3, text' = ''Item 3''\<rparr>]"
  "removeItem (Num 1) (addItem initial_items)
     = [\<lparr>id' = Num 2, text' = ''Item 2''\<rparr>, \<lparr>id' = Num 3, text' = ''Item 3''\<rparr>]"
  "updateItem (Num 2) ''X'' (removeItem (Num 1) (addItem initial_items))
     = [\<lparr>id' = Num 2, text' = ''X''\<rparr>, \<lparr>id' = Num 3, text' = ''Item 3''\<rparr>]"
  by (simp_all add: removeItem_def updateItem_def initial_items_def addItem_def Math_max_def
      Let_def digits.simps)

lemma addItem_safe_example:
  "isSafeInteger (Num 41) \<and> toString (Num 41) = ''41'' \<and> toString (Num (- 120)) = ''-120''"
  by (simp add: digits.simps)


section \<open>SortableList: filtering\<close>

text \<open>
  Claim C6. For every state \<open>S\<close> and category \<open>c\<close>, \<open>filterByCategory\<close> leaves the state
  as it is and returns a subsequence of \<open>S\<close> (the relative order is kept) all of whose
  records have the category \<open>c\<close> and in which every record of \<open>S\<close> with the category \<open>c\<close>
  occurs as often as in \<open>S\<close>.
\<close>

theorem filterByCategory_spec:
  "snd (filterByCategory c S) = S
   \<and> subseq (fst (filterByCategory c S)) S
   \<and> (\<forall>r\<in>set (fst (filterByCategory c S)). category r = c)
   \<and> (\<forall>r. category r = c \<longrightarrow> count_list (fst (filterByCategory c S)) r = count_list S r)"
  by (simp add: filterByCategory_def count_list_filter)

theorem filterByCategory_spec_witness:
  "fst (filterByCategory ''fruit'' sortable_initial)
     = [\<lparr>id' = Num 1, text' = ''Apple'', category = ''fruit''\<rparr>,
        \<lparr>id' = Num 2, text' = ''Banana'', category = ''fruit''\<rparr>]
   \<and> snd (filterByCategory ''fruit'' sortable_initial) = sortable_initial
   \<and> category \<lparr>id' = Num 2, text' = ''Banana'', category = ''fruit''\<rparr> = ''fruit''
   \<and> \<lparr>id' = Num 2, text' = ''Banana'', category = ''fruit''\<rparr>
       \<in> set (fst (filterByCategory ''fruit'' sortable_initial))
   \<and> count_list (fst (filterByCategory ''fruit'' sortable_initial))
       \<lparr>id' = Num 2, text' = ''Banana'', category = ''fruit''\<rparr> = 1"
  using filterByCategory_spec [of "''fruit''" sortable_initial]
  by (simp add: filterByCategory_def sortable_initial_def)

section \<open>SortableList: sorting\<close>

lemma comparator_greater_flip:
  assumes "consistent_comparator f" and "f a b > 0"
  shows "f b a < 0"
proof (rule ccontr)
  assume "\<not> f b a < 0"
  then consider "f b a = 0" | "f b a > 0" by linarith
  then show False
  proof cases
    case 1
    with assms(1) have "f a b = 0" unfolding consistent_comparator_def by blast
    with assms(2) show False by simp
  next
    case 2
    with assms have "f a a > 0" unfolding consistent_comparator_def by blast
    moreover from assms(1) have "f a a = 0" unfolding consistent_comparator_def by blast
    ultimately show False by simp
  qed
qed

lemma comparator_less_flip:
  assumes "consistent_comparator f" and "f a b < 0"
  shows "f b a > 0"
proof (rule ccontr)
  assume "\<not> f b a > 0"
  then consider "f b a = 0" | "f b a < 0" by linarith
  then show False
  proof cases
    case 1
    with assms(1) have "f a b = 0" unfolding consistent_comparator_def by blast
    with assms(2) show False by simp
  next
    case 2
    with assms have "f a a < 0" unfolding consistent_comparator_def by blast
    moreover from assms(1) have "f a a = 0" unfolding consistent_comparator_def by blast
    ultimately show False by simp
  qed
qed

lemma comparator_le_total:
  assumes "consistent_comparator f" and "\<not> f a b \<le> 0"
  shows "f b a \<le> 0"
  using comparator_greater_flip [OF assms(1), of a b] assms(2) by simp

lemma comparator_le_trans:
  assumes c: "consistent_comparator f" and ab: "f a b \<le> 0" and bc: "f b c \<le> 0"
  shows "f a c \<le> 0"
proof (rule ccontr)
  assume "\<not> f a c \<le> 0"
  then have ac: "f a c > 0" by simp
  have eq_trans: "\<And>x y z. f x y = 0 \<Longrightarrow> f y z = 0 \<Longrightarrow> f x z = 0"
    and lt_trans: "\<And>x y z. f x y < 0 \<Longrightarrow> f y z < 0 \<Longrightarrow> f x z < 0"
    and gt_trans: "\<And>x y z. f x y > 0 \<Longrightarrow> f y z > 0 \<Longrightarrow> f x z > 0"
    using c unfolding consistent_comparator_def by blast+
  consider "f a b < 0" "f b c < 0" | "f a b = 0" "f b c = 0"
    | "f a b < 0" "f b c = 0" | "f a b = 0" "f b c < 0"
    using ab bc by linarith
  then show False
  proof cases
    case 1
    then have "f a c < 0" by (rule lt_trans)
    with ac show False by simp
  next
    case 2
    then have "f a c = 0" by (rule eq_trans)
    with ac show False by simp
  next
    case 3
    from 3(1) have "f b a > 0" by (rule comparator_less_flip [OF c])
    then have "f b c > 0" using ac by (rule gt_trans)
    with 3(2) show False by simp
  next
    case 4
    from 4(2) have "f c b > 0" by (rule comparator_less_flip [OF c])
    with ac have "f a b > 0" by (rule gt_trans)
    with 4(1) show False by simp
  qed
qed

lemma set_insert_by: "set (insert_by f a bs) = insert a (set bs)"
  by (induction bs) auto

lemma mset_insert_by: "mset (insert_by f a bs) = add_mset a (mset bs)"
  by (induction bs) auto

lemma mset_array_sort: "mset (array_sort f xs) = mset xs"
  by (induction xs) (simp_all add: array_sort_def mset_insert_by)

lemma sorted_insert_by:
  assumes "consistent_comparator f" and "sorted_wrt (\<lambda>a b. f a b \<le> 0) bs"
  shows "sorted_wrt (\<lambda>a b. f a b \<le> 0) (insert_by f a bs)"
  using assms(2)
proof (induction bs)
  case Nil
  then show ?case by simp
next
  case (Cons b bs)
  show ?case
  proof (cases "f a b \<le> 0")
    case True
    have "f a z \<le> 0" if "z \<in> set bs" for z
    proof -
      from Cons.prems that have "f b z \<le> 0" by simp
      with True show ?thesis by (rule comparator_le_trans [OF assms(1)])
    qed
    with True Cons.prems show ?thesis by simp
  next
    case False
    then have "f b a \<le> 0" by (rule comparator_le_total [OF assms(1)])
    with False Cons show ?thesis by (auto simp: set_insert_by)
  qed
qed

lemma sorted_array_sort:
  assumes "consistent_comparator f"
  shows "sorted_wrt (\<lambda>a b. f a b \<le> 0) (array_sort f xs)"
proof (induction xs)
  case Nil
  show ?case by (simp add: array_sort_def)
next
  case (Cons x xs)
  have "array_sort f (x # xs) = insert_by f x (array_sort f xs)"
    by (simp add: array_sort_def)
  with Cons show ?case by (simp add: sorted_insert_by [OF assms])
qed

lemma consistent_on_field:
  "consistent_comparator f \<Longrightarrow> consistent_comparator (\<lambda>a b. f (g a) (g b))"
  unfolding consistent_comparator_def by blast

lemma sorted_same_elements_equal:
  assumes c: "consistent_comparator f"
    and "sorted_wrt (\<lambda>a b. f a b \<le> 0) xs" and "sorted_wrt (\<lambda>a b. f a b \<le> 0) ys"
    and "mset xs = mset ys"
    and "\<forall>a\<in>set xs. \<forall>b\<in>set xs. a \<noteq> b \<longrightarrow> f a b \<noteq> 0"
  shows "xs = ys"
  using assms(2-)
proof (induction xs arbitrary: ys)
  case Nil
  then show ?case by simp
next
  case (Cons x xs)
  from Cons.prems(3) obtain y ys' where ys: "ys = y # ys'" by (cases ys) auto
  have sets: "set (x # xs) = set (y # ys')"
    using Cons.prems(3) ys by (metis set_mset_mset)
  have xy: "x = y"
  proof (rule ccontr)
    assume ne: "x \<noteq> y"
    with sets have "x \<in> set ys'" and "y \<in> set xs" by auto
    then have "f y x \<le> 0" and "f x y \<le> 0" using Cons.prems(1,2) ys by auto
    moreover have "f x y \<noteq> 0" using Cons.prems(4) ne \<open>y \<in> set xs\<close> by simp
    ultimately have "f x y < 0" and "f y x \<le> 0" by simp_all
    with comparator_less_flip [OF c, of x y] show False by simp
  qed
  have "xs = ys'"
  proof (rule Cons.IH)
    show "sorted_wrt (\<lambda>a b. f a b \<le> 0) xs" using Cons.prems(1) by simp
    show "sorted_wrt (\<lambda>a b. f a b \<le> 0) ys'" using Cons.prems(2) ys by simp
    show "mset xs = mset ys'" using Cons.prems(3) ys xy by simp
    show "\<forall>a\<in>set xs. \<forall>b\<in>set xs. a \<noteq> b \<longrightarrow> f a b \<noteq> 0" using Cons.prems(4) by simp
  qed
  with xy ys show ?case by simp
qed

lemma filter_insert_by:
  assumes c: "consistent_comparator f"
  shows "filter (\<lambda>b. f a b = 0) (insert_by f x ys)
     = (if f a x = 0 then x # filter (\<lambda>b. f a b = 0) ys else filter (\<lambda>b. f a b = 0) ys)"
proof (induction ys)
  case Nil
  show ?case by simp
next
  case (Cons y ys)
  have clash: False if "f a x = 0" "f a y = 0" "\<not> f x y \<le> 0"
  proof -
    from c that(1) have "f x a = 0" unfolding consistent_comparator_def by blast
    with c that(2) have "f x y = 0" unfolding consistent_comparator_def by blast
    with that(3) show False by simp
  qed
  show ?case
  proof (cases "f x y \<le> 0")
    case True
    then show ?thesis by simp
  next
    case False
    with Cons clash show ?thesis by auto
  qed
qed

lemma array_sort_stable:
  assumes "consistent_comparator f"
  shows "filter (\<lambda>b. f a b = 0) (array_sort f xs) = filter (\<lambda>b. f a b = 0) xs"
proof (induction xs)
  case Nil
  show ?case by (simp add: array_sort_def)
next
  case (Cons x xs)
  have "array_sort f (x # xs) = insert_by f x (array_sort f xs)"
    by (simp add: array_sort_def)
  with Cons show ?case by (simp add: filter_insert_by [OF assms])
qed

lemma sortItems_distinct:
  "distinct (map id' S) \<Longrightarrow> distinct (map id' (sortItems localeCompare S))"
proof -
  have "mset (map id' (sortItems localeCompare S)) = mset (map id' S)"
    by (simp add: sortItems_def mset_array_sort)
  then show "distinct (map id' S) \<Longrightarrow> distinct (map id' (sortItems localeCompare S))"
    by (metis distinct_map mset_eq_imp_distinct_iff mset_map)
qed

lemma code_order_compare_consistent: "consistent_comparator code_order_compare"
  unfolding consistent_comparator_def code_order_compare_def by auto

text \<open>
  Claim C7. Let \<open>localeCompare\<close> be a consistent comparison function. For every state
  \<open>S\<close>, the state \<open>sortItems\<close> passes to \<open>setItems\<close> is a permutation of \<open>S\<close> and is in
  non-decreasing order of \<open>localeCompare\<close> on the text field. The order \<open>S\<close> had is
  lost: when no two different records of \<open>S\<close> compare equal, every arrangement \<open>S'\<close> of
  the same records is sorted to the same state.
\<close>

theorem sortItems_spec:
  assumes "consistent_comparator localeCompare"
  shows "mset (sortItems localeCompare S) = mset S
   \<and> sorted_wrt (\<lambda>a b. localeCompare (text' a) (text' b) \<le> 0) (sortItems localeCompare S)
   \<and> (\<forall>S'. mset S' = mset S
          \<and> (\<forall>a\<in>set S. \<forall>b\<in>set S. a \<noteq> b \<longrightarrow> localeCompare (text' a) (text' b) \<noteq> 0)
        \<longrightarrow> sortItems localeCompare S' = sortItems localeCompare S)"
proof -
  let ?f = "\<lambda>a b. localeCompare (text' a) (text' b)"
  have cf: "consistent_comparator ?f"
    using assms by (rule consistent_on_field)
  have perm: "mset (sortItems localeCompare T) = mset T" for T :: "'a item_scheme list"
    by (simp add: sortItems_def mset_array_sort)
  have ordered: "sorted_wrt (\<lambda>a b. ?f a b \<le> 0) (sortItems localeCompare T)"
    for T :: "'a item_scheme list"
    using sorted_array_sort [OF cf] by (simp add: sortItems_def)
  have lost: "sortItems localeCompare S' = sortItems localeCompare S"
    if "mset S' = mset S"
      and "\<forall>a\<in>set S. \<forall>b\<in>set S. a \<noteq> b \<longrightarrow> ?f a b \<noteq> 0" for S'
  proof (rule sorted_same_elements_equal [OF cf])
    show "sorted_wrt (\<lambda>a b. ?f a b \<le> 0) (sortItems localeCompare S')" by (rule ordered)
    show "sorted_wrt (\<lambda>a b. ?f a b \<le> 0) (sortItems localeCompare S)" by (rule ordered)
    show "mset (sortItems localeCompare S') = mset (sortItems localeCompare S)"
      using that(1) by (simp add: perm)
    have "set (sortItems localeCompare S') = set S"
      using that(1) perm [of S'] by (metis set_mset_mset)
    with that(2) show "\<forall>a\<in>set (sortItems localeCompare S').
        \<forall>b\<in>set (sortItems localeCompare S'). a \<noteq> b \<longrightarrow> ?f a b \<noteq> 0"
      by simp
  qed
  from perm ordered lost show ?thesis by blast
qed

theorem sortItems_spec_witness:
  "consistent_comparator code_order_compare
   \<and> sortItems code_order_compare
        [\<lparr>id' = Num 2, text' = ''Banana'', category = ''fruit''\<rparr>,
         \<lparr>id' = Num 3, text' = ''Carrot'', category = ''vegetable''\<rparr>,
         \<lparr>id' = Num 1, text' = ''Apple'', category = ''fruit''\<rparr>]
       = [\<lparr>id' = Num 1, text' = ''Apple'', category = ''fruit''\<rparr>,
          \<lparr>id' = Num 2, text' = ''Banana'', category = ''fruit''\<rparr>,
          \<lparr>id' = Num 3, text' = ''Carrot'', category = ''vegetable''\<rparr>]
   \<and> sortItems code_order_compare
        [\<lparr>id' = Num 3, text' = ''Carrot'', category = ''vegetable''\<rparr>,
         \<lparr>id' = Num 1, text' = ''Apple'', category = ''fruit''\<rparr>,
         \<lparr>id' = Num 2, text' = ''Banana'', category = ''fruit''\<rparr>]
       = sortItems code_order_compare
          [\<lparr>id' = Num 2, text' = ''Banana'', category = ''fruit''\<rparr>,
           \<lparr>id' = Num 3, text' = ''Carrot'', category = ''vegetable''\<rparr>,
           \<lparr>id' = Num 1, text' = ''Apple'', category = ''fruit''\<rparr>]
   \<and> sorted_wrt (\<lambda>a b. code_order_compare (text' a) (text' b) \<le> 0)
        (sortItems code_order_compare
          [\<lparr>id' = Num 2, text' = ''Banana'', category = ''fruit''\<rparr>,
           \<lparr>id' = Num 3, text' = ''Carrot'', category = ''vegetable''\<rparr>,
           \<lparr>id' = Num 1, text' = ''Apple'', category = ''fruit''\<rparr>])"
proof -
  let ?S = "[\<lparr>id' = Num 2, text' = ''Banana'', category = ''fruit''\<rparr>,
             \<lparr>id' = Num 3, text' = ''Carrot'', category = ''vegetable''\<rparr>,
             \<lparr>id' = Num 1, text' = ''Apple'', category = ''fruit''\<rparr>]"
  let ?S' = "[\<lparr>id' = Num 3, text' = ''Carrot'', category = ''vegetable''\<rparr>,
              \<lparr>id' = Num 1, text' = ''Apple'', category = ''fruit''\<rparr>,
              \<lparr>id' = Num 2, text' = ''Banana'', category = ''fruit''\<rparr>]"
  have c: "consistent_comparator code_order_compare"
    by (rule code_order_compare_consistent)
  note spec = sortItems_spec [OF c, of ?S]
  have run: "sortItems code_order_compare ?S
       = [\<lparr>id' = Num 1, text' = ''Apple'', category = ''fruit''\<rparr>,
          \<lparr>id' = Num 2, text' = ''Banana'', category = ''fruit''\<rparr>,
          \<lparr>id' = Num 3, text' = ''Carrot'', category = ''vegetable''\<rparr>]"
    by (simp add: sortItems_def array_sort_def code_order_compare_def)
  have "mset ?S' = mset ?S" by simp
  moreover have "\<forall>a\<in>set ?S. \<forall>b\<in>set ?S. a \<noteq> b \<longrightarrow> code_order_compare (text' a) (text' b) \<noteq> 0"
    by (simp add: code_order_compare_def)
  ultimately have same: "sortItems code_order_compare ?S' = sortItems code_order_compare ?S"
    using spec by blast
  have ordered: "sorted_wrt (\<lambda>a b. code_order_compare (text' a) (text' b) \<le> 0)
      (sortItems code_order_compare ?S)"
    using spec by blast
  from c run same ordered show ?thesis by blast
qed


section \<open>The conditional-rendering catalogue: selection\<close>










section \<open>The SOLID-principles file: methods that throw\<close>

lemma prototype_chain_eq:
  "prototype_chain c =
     c # (case extends c of None \<Rightarrow> []
          | Some p \<Rightarrow> p # (case extends p of None \<Rightarrow> [] | Some q \<Rightarrow> [q]))"
  by (cases c) (simp_all add: prototype_chain_def all_classes_def)

text \<open>The fuel is enough: every chain ends at a class without a parent.\<close>

lemma prototype_chain_complete: "extends (last (prototype_chain c)) = None"
  by (cases c) (simp_all add: prototype_chain_eq)

lemma all_classes_complete: "set all_classes = UNIV"
proof -
  have "c \<in> set all_classes" for c
    by (cases c) (simp_all add: all_classes_def)
  then show ?thesis by blast
qed

lemma abstract_base_iff:
  "abstract_base c \<longleftrightarrow> c \<in> {Payment, Database, TaskRepository, NotificationService}"
  by (cases c) (simp_all add: abstract_base_def)

lemma throwing_methods:
  "own_method c m = Some (Throws message) \<longleftrightarrow>
     (c, m, message) \<in>
       {(Payment, ''process'', ''process() method must be implemented''),
        (PenguinBad, ''fly'', ''Penguins can't fly!''),
        (Database, ''save'', ''save() method must be implemented''),
        (TaskRepository, ''save'', ''Not implemented''),
        (TaskRepository, ''delete'', ''Not implemented''),
        (TaskRepository, ''find'', ''Not implemented''),
        (NotificationService, ''notify'', ''Not implemented'')}"
  by (cases c) (auto simp: own_method_def)

lemma abstract_invoke:
  "abstract_base c \<Longrightarrow> own_method c m = Some (Throws message) \<Longrightarrow> invoke c m = Raises message"
  by (cases c) (auto simp: abstract_base_def invoke_def lookup_method_def prototype_chain_eq)

lemma subclass_overrides:
  "a \<in> set (tl (prototype_chain c)) \<Longrightarrow> abstract_base a \<Longrightarrow> own_method a m \<noteq> None \<Longrightarrow>
     own_method c m = Some NoThrow \<and> invoke c m = Runs"
  by (cases c)
    (auto simp: abstract_base_iff invoke_def lookup_method_def prototype_chain_eq own_method_def
      split: if_splits)

lemma subclasses_of_abstract:
  "(\<exists>a\<in>set (tl (prototype_chain c)). abstract_base a) \<longleftrightarrow>
     c \<in> {CreditCardPayment, PayPalPayment, BitcoinPayment, MySQLDatabase, MongoDatabase,
          MongoTaskRepository, EmailNotificationService, SlackNotificationService}"
  by (cases c) (simp_all add: prototype_chain_eq abstract_base_iff)

text \<open>
  Claim C8, as stated, fails at \<open>PenguinBad.fly\<close>: the call raises an error, although
  \<open>PenguinBad\<close> is not an abstract base class and the method overrides one that runs.
\<close>

theorem PenguinBad_fly_raises:
  "invoke PenguinBad ''fly'' = Raises ''Penguins can't fly!''
   \<and> \<not> abstract_base PenguinBad
   \<and> extends PenguinBad = Some BirdBad
   \<and> invoke BirdBad ''fly'' = Runs"
  by (simp add: invoke_def lookup_method_def prototype_chain_eq own_method_def abstract_base_def)

text \<open>
  Claim C8, amended. The abstract base classes are \<open>Payment\<close>, \<open>Database\<close>,
  \<open>TaskRepository\<close> and \<open>NotificationService\<close>. Invoking a method of one of them on
  an instance of the class itself raises the \<open>Error\<close> of its body. The methods of the
  file whose body is a \<open>throw\<close> are these six and \<open>PenguinBad.fly\<close>, and no other.
  Every class that has an abstract base class among its ancestors declares each method
  of that base class itself, with a body that does not throw, so the call resolves to it;
  these classes are the eight concrete subclasses.
\<close>

theorem abstract_methods_raise:
  "(\<forall>c. abstract_base c \<longleftrightarrow> c \<in> {Payment, Database, TaskRepository, NotificationService})
   \<and> (\<forall>c m message. abstract_base c \<and> own_method c m = Some (Throws message)
         \<longrightarrow> invoke c m = Raises message)
   \<and> (\<forall>c m message. own_method c m = Some (Throws message) \<longleftrightarrow>
         (c, m, message) \<in>
           {(Payment, ''process'', ''process() method must be implemented''),
            (PenguinBad, ''fly'', ''Penguins can't fly!''),
            (Database, ''save'', ''save() method must be implemented''),
            (TaskRepository, ''save'', ''Not implemented''),
            (TaskRepository, ''delete'', ''Not implemented''),
            (TaskRepository, ''find'', ''Not implemented''),
            (NotificationService, ''notify'', ''Not implemented'')})
   \<and> (\<forall>c a m. a \<in> set (tl (prototype_chain c)) \<and> abstract_base a \<and> own_method a m \<noteq> None
         \<longrightarrow> own_method c m = Some NoThrow \<and> invoke c m = Runs)
   \<and> (\<forall>c. (\<exists>a\<in>set (tl (prototype_chain c)). abstract_base a) \<longleftrightarrow>
         c \<in> {CreditCardPayment, PayPalPayment, BitcoinPayment, MySQLDatabase, MongoDatabase,
              MongoTaskRepository, EmailNotificationService, SlackNotificationService})"
proof (intro conjI allI impI)
  fix c
  show "abstract_base c \<longleftrightarrow> c \<in> {Payment, Database, TaskRepository, NotificationService}"
    by (rule abstract_base_iff)
next
  fix c m message
  assume "abstract_base c \<and> own_method c m = Some (Throws message)"
  then show "invoke c m = Raises message"
    using abstract_invoke [of c m message] by (elim conjE)
next
  fix c m message
  show "own_method c m = Some (Throws message) \<longleftrightarrow>
         (c, m, message) \<in>
           {(Payment, ''process'', ''process() method must be implemented''),
            (PenguinBad, ''fly'', ''Penguins can't fly!''),
            (Database, ''save'', ''save() method must be implemented''),
            (TaskRepository, ''save'', ''Not implemented''),
            (TaskRepository, ''delete'', ''Not implemented''),
            (TaskRepository, ''find'', ''Not implemented''),
            (NotificationService, ''notify'', ''Not implemented'')}"
    by (rule throwing_methods)
next
  fix c a m
  assume h: "a \<in> set (tl (prototype_chain c)) \<and> abstract_base a \<and> own_method a m \<noteq> None"
  have "a \<in> set (tl (prototype_chain c))"
    by (rule h [THEN conjunct1])
  moreover have "abstract_base a"
    by (rule h [THEN conjunct2, THEN conjunct1])
  moreover have "own_method a m \<noteq> None"
    by (rule h [THEN conjunct2, THEN conjunct2])
  ultimately have both: "own_method c m = Some NoThrow \<and> invoke c m = Runs"
    by (rule subclass_overrides)
  from both show "own_method c m = Some NoThrow" by (rule conjunct1)
  from both show "invoke c m = Runs" by (rule conjunct2)
next
  fix c
  show "(\<exists>a\<in>set (tl (prototype_chain c)). abstract_base a) \<longleftrightarrow>
         c \<in> {CreditCardPayment, PayPalPayment, BitcoinPayment, MySQLDatabase, MongoDatabase,
              MongoTaskRepository, EmailNotificationService, SlackNotificationService}"
    by (rule subclasses_of_abstract)
qed

theorem abstract_methods_raise_witness:
  "abstract_base TaskRepository
   \<and> own_method TaskRepository ''find'' = Some (Throws ''Not implemented'')
   \<and> invoke TaskRepository ''find'' = Raises ''Not implemented''
   \<and> TaskRepository \<in> set (tl (prototype_chain MongoTaskRepository))
   \<and> own_method TaskRepository ''find'' \<noteq> None
   \<and> own_method MongoTaskRepository ''find'' = Some NoThrow
   \<and> invoke MongoTaskRepository ''find'' = Runs"
proof -
  have a: "abstract_base TaskRepository"
    by (simp add: abstract_base_def)
  have o: "own_method TaskRepository ''find'' = Some (Throws ''Not implemented'')"
    by (simp add: own_method_def)
  have p: "TaskRepository \<in> set (tl (prototype_chain MongoTaskRepository))"
    by (simp add: prototype_chain_eq)
  have r: "invoke TaskRepository ''find'' = Raises ''Not implemented''"
    by (rule abstract_methods_raise [THEN conjunct2, THEN conjunct1, rule_format,
          OF conjI [OF a o]])
  from o have n: "own_method TaskRepository ''find'' \<noteq> None" by simp
  have s: "own_method MongoTaskRepository ''find'' = Some NoThrow
      \<and> invoke MongoTaskRepository ''find'' = Runs"
    by (rule abstract_methods_raise [THEN conjunct2, THEN conjunct2, THEN conjunct2,
          THEN conjunct1, rule_format, OF conjI [OF p conjI [OF a n]]])
  show ?thesis
    by (intro conjI) (rule a, rule o, rule r, rule p, rule n, rule s [THEN conjunct1],
        rule s [THEN conjunct2])
qed

end
